theory Spec2Isabelle
  imports Main "HOL-Library.Sublist"
begin

section \<open>CopyFilesOverSSHV0: file selection and copy orchestration\<close>

text \<open>
  A shallow embedding of \<^verbatim>\<open>Tasks/CopyFilesOverSSHV0/copyfilesoverssh.ts\<close>.
  A JavaScript string is the \<open>string\<close> of its UTF-8 bytes; the characters the code
  looks at (\<open>!\<close>, both slashes, the quotes of the cleanup command) are ASCII.
  Calls of \<^verbatim>\<open>tl.debug\<close> are left out: they only write diagnostics.
\<close>

subsection \<open>The local host: path module, matcher and file system\<close>

text \<open>
  The options object handed to minimatch: \<^verbatim>\<open>{ matchBase: true, dot: true }\<close>, with
  \<^verbatim>\<open>nocase\<close> added on a Windows agent.
\<close>

record match_options =
  matchBase :: bool
  dot :: bool
  nocase :: bool

text \<open>
  What the task takes from Node and from the task library. \<open>path_join\<close> and
  \<open>path_basename\<close> are \<^verbatim>\<open>path.join\<close> and \<^verbatim>\<open>path.basename\<close> of the path module of the
  agent's platform; \<open>posix_join\<close> is \<^verbatim>\<open>path.posix.join\<close>, which Node provides on every
  platform. \<open>minimatch\<close> is the matcher for one path,
  \<^verbatim>\<open>new Minimatch(pattern, options).match(path)\<close>; \<open>tl_find\<close> and \<open>tl_stats\<close> read the
  file system and may throw (\<open>Inl\<close> carries the error text), \<open>tl_stats\<close> answering
  \<^verbatim>\<open>isDirectory()\<close>.
\<close>

record host =
  os_platform :: string
  path_join :: "string \<Rightarrow> string \<Rightarrow> string"
  path_basename :: "string \<Rightarrow> string"
  posix_join :: "string \<Rightarrow> string \<Rightarrow> string"
  minimatch :: "match_options \<Rightarrow> string \<Rightarrow> string \<Rightarrow> bool"
  tl_find :: "string \<Rightarrow> string + string list"
  tl_stats :: "string \<Rightarrow> string + bool"

text \<open>
  \<^verbatim>\<open>minimatch.match(list, pattern, options)\<close> keeps the entries of \<open>list\<close> that the
  matcher accepts, in their order (the \<^verbatim>\<open>nonull\<close> option is not set by the task).
\<close>

definition minimatch_match :: "host \<Rightarrow> string list \<Rightarrow> string \<Rightarrow> match_options \<Rightarrow> string list" where
  "minimatch_match h list pattern options = filter (minimatch h options pattern) list"

subsection \<open>getFilesToCopy: classification of the content patterns\<close>

text \<open>
  The white space and line terminators that \<^verbatim>\<open>String.prototype.trim\<close> strips, by the
  length of their UTF-8 encoding: U+0009 to U+000D and U+0020; U+00A0; U+1680, U+2000 to
  U+200A, U+2028, U+2029, U+202F, U+205F, U+3000 and U+FEFF.
\<close>

definition isWhiteSpace :: "char \<Rightarrow> bool" where
  "isWhiteSpace c = (c \<in> set [CHR 0x09, CHR 0x0A, CHR 0x0B, CHR 0x0C, CHR 0x0D, CHR 0x20])"

definition isWhiteSpace2 :: "char \<Rightarrow> char \<Rightarrow> bool" where
  "isWhiteSpace2 a b = (a = CHR 0xC2 \<and> b = CHR 0xA0)"

definition isWhiteSpace3 :: "char \<Rightarrow> char \<Rightarrow> char \<Rightarrow> bool" where
  "isWhiteSpace3 a b c =
     (a = CHR 0xE1 \<and> b = CHR 0x9A \<and> c = CHR 0x80
      \<or> a = CHR 0xE2 \<and> b = CHR 0x80 \<and>
          c \<in> set [CHR 0x80, CHR 0x81, CHR 0x82, CHR 0x83, CHR 0x84, CHR 0x85, CHR 0x86,
                    CHR 0x87, CHR 0x88, CHR 0x89, CHR 0x8A, CHR 0xA8, CHR 0xA9, CHR 0xAF]
      \<or> a = CHR 0xE2 \<and> b = CHR 0x81 \<and> c = CHR 0x9F
      \<or> a = CHR 0xE3 \<and> b = CHR 0x80 \<and> c = CHR 0x80
      \<or> a = CHR 0xEF \<and> b = CHR 0xBB \<and> c = CHR 0xBF)"

text \<open>White space at the start of a string.\<close>

fun trimStart :: "string \<Rightarrow> string" where
  "trimStart (a # b # c # s) =
     (if isWhiteSpace a then trimStart (b # c # s)
      else if isWhiteSpace2 a b then trimStart (c # s)
      else if isWhiteSpace3 a b c then trimStart s
      else a # b # c # s)"
| "trimStart [a, b] =
     (if isWhiteSpace a then trimStart [b]
      else if isWhiteSpace2 a b then []
      else [a, b])"
| "trimStart [a] = (if isWhiteSpace a then [] else [a])"
| "trimStart [] = []"

text \<open>White space at the end of a string, on the reversed string: \<open>c\<close> is the last byte.\<close>

fun trimEndReversed :: "string \<Rightarrow> string" where
  "trimEndReversed (c # b # a # s) =
     (if isWhiteSpace c then trimEndReversed (b # a # s)
      else if isWhiteSpace2 b c then trimEndReversed (a # s)
      else if isWhiteSpace3 a b c then trimEndReversed s
      else c # b # a # s)"
| "trimEndReversed [c, b] =
     (if isWhiteSpace c then trimEndReversed [b]
      else if isWhiteSpace2 b c then []
      else [c, b])"
| "trimEndReversed [c] = (if isWhiteSpace c then [] else [c])"
| "trimEndReversed [] = []"

text \<open>\<^verbatim>\<open>x.trim()\<close>.\<close>

definition trim :: "string \<Rightarrow> string" where
  "trim x = rev (trimEndReversed (rev (trimStart x)))"

text \<open>
  The inner loop over the characters of a pattern: every leading \<open>!\<close> flips \<open>negate\<close>
  and is counted; the first other character ends the loop.
\<close>

fun leadingNegations :: "string \<Rightarrow> bool \<times> nat \<Rightarrow> bool \<times> nat" where
  "leadingNegations [] (negate, numberOfNegations) = (negate, numberOfNegations)"
| "leadingNegations (c # cs) (negate, numberOfNegations) =
     (if c = CHR ''!'' then leadingNegations cs (\<not> negate, Suc numberOfNegations)
      else (negate, numberOfNegations))"

text \<open>
  One turn of the outer loop, on a trimmed pattern: the pattern is pushed on
  \<open>excludeContents\<close> or on \<open>includeContents\<close>. \<^verbatim>\<open>substring(0, n)\<close> is \<open>take n\<close> and
  \<^verbatim>\<open>substring(n)\<close> is \<open>drop n\<close>.
\<close>

definition classifyPattern ::
  "host \<Rightarrow> string \<Rightarrow> string \<Rightarrow> string list \<times> string list \<Rightarrow> string list \<times> string list" where
  "classifyPattern h sourceFolder pattern acc =
     (case acc of (includeContents, excludeContents) \<Rightarrow>
      (case leadingNegations pattern (False, 0) of (negate, numberOfNegations) \<Rightarrow>
         if negate
         then (includeContents,
               excludeContents @
                 [take numberOfNegations pattern @
                  path_join h sourceFolder (drop numberOfNegations pattern)])
         else (includeContents @ [path_join h sourceFolder pattern], excludeContents)))"

definition classifyContents :: "host \<Rightarrow> string \<Rightarrow> string list \<Rightarrow> string list \<times> string list" where
  "classifyContents h sourceFolder contents =
     foldl (\<lambda>acc pattern. classifyPattern h sourceFolder pattern acc) ([], []) (map trim contents)"

subsection \<open>getFilesToCopy: enumeration and matching\<close>

text \<open>The loop that drops the directories from the result of \<^verbatim>\<open>tl.find\<close>.\<close>

fun removeFolders :: "host \<Rightarrow> string list \<Rightarrow> string list \<Rightarrow> string + string list" where
  "removeFolders h [] allFiles = Inr allFiles"
| "removeFolders h (p # ps) allFiles =
     (case tl_stats h p of
        Inl e \<Rightarrow> Inl e
      | Inr isDirectory \<Rightarrow>
          removeFolders h ps (if \<not> isDirectory then allFiles @ [p] else allFiles))"

definition getMatchOptions :: "host \<Rightarrow> match_options" where
  "getMatchOptions h =
     (let matchOptions = \<lparr>matchBase = True, dot = True, nocase = False\<rparr>
      in if os_platform h = ''win32'' then matchOptions\<lparr>nocase := True\<rparr> else matchOptions)"

text \<open>
  \<open>pathsSeen\<close> is a plain object used as a dictionary; the map holds its own
  properties. The call \<^verbatim>\<open>pathsSeen.hasOwnProperty(matchPath)\<close> looks the method up on the
  object itself first: once the object has an own property of that name (its value is
  \<^verbatim>\<open>true\<close>), the call throws a \<^verbatim>\<open>TypeError\<close>. The assignment
  \<^verbatim>\<open>pathsSeen[matchPath] = true\<close> adds an own property, except for the key \<^verbatim>\<open>__proto__\<close>:
  that assignment goes to the accessor of \<^verbatim>\<open>Object.prototype\<close>, which ignores a value
  that is not an object.
\<close>

definition hasOwnProperty :: "(string \<rightharpoonup> bool) \<Rightarrow> string \<Rightarrow> string + bool" where
  "hasOwnProperty obj key =
     (if obj ''hasOwnProperty'' \<noteq> None
      then Inl ''TypeError: pathsSeen.hasOwnProperty is not a function''
      else Inr (obj key \<noteq> None))"

definition setProperty :: "(string \<rightharpoonup> bool) \<Rightarrow> string \<Rightarrow> (string \<rightharpoonup> bool)" where
  "setProperty obj key = (if key = ''__proto__'' then obj else obj(key \<mapsto> True))"

text \<open>
  The inner include loop: a match is pushed on \<open>files\<close> unless \<open>pathsSeen\<close> has it
  as an own property already.
\<close>

fun addMatches ::
  "string list \<Rightarrow> (string \<rightharpoonup> bool) \<times> string list \<Rightarrow>
   string + (string \<rightharpoonup> bool) \<times> string list" where
  "addMatches [] (pathsSeen, files) = Inr (pathsSeen, files)"
| "addMatches (matchPath # matches) (pathsSeen, files) =
     (case hasOwnProperty pathsSeen matchPath of
        Inl e \<Rightarrow> Inl e
      | Inr seen \<Rightarrow>
          if \<not> seen
          then addMatches matches (setProperty pathsSeen matchPath, files @ [matchPath])
          else addMatches matches (pathsSeen, files))"

text \<open>The include loop: every pattern is matched against \<open>allFiles\<close>.\<close>

fun includeLoop ::
  "host \<Rightarrow> match_options \<Rightarrow> string list \<Rightarrow> string list \<Rightarrow>
   (string \<rightharpoonup> bool) \<times> string list \<Rightarrow> string + (string \<rightharpoonup> bool) \<times> string list" where
  "includeLoop h matchOptions allFiles [] st = Inr st"
| "includeLoop h matchOptions allFiles (pattern # patterns) st =
     (case addMatches (minimatch_match h allFiles pattern matchOptions) st of
        Inl e \<Rightarrow> Inl e
      | Inr st' \<Rightarrow> includeLoop h matchOptions allFiles patterns st')"

text \<open>The exclude loop: every pattern is matched against the current \<open>files\<close>, which the matches replace.\<close>

fun excludeLoop :: "host \<Rightarrow> match_options \<Rightarrow> string list \<Rightarrow> string list \<Rightarrow> string list" where
  "excludeLoop h matchOptions [] files = files"
| "excludeLoop h matchOptions (pattern # patterns) files =
     excludeLoop h matchOptions patterns (minimatch_match h files pattern matchOptions)"

text \<open>The include-everything pattern is added when there are exclude patterns only.\<close>

definition addIncludeAll :: "string list \<Rightarrow> string list \<Rightarrow> string list" where
  "addIncludeAll includeContents excludeContents =
     (if length includeContents = 0 \<and> length excludeContents > 0
      then includeContents @ [''**''] else includeContents)"

definition getFilesToCopy :: "host \<Rightarrow> string \<Rightarrow> string list \<Rightarrow> string + string list" where
  "getFilesToCopy h sourceFolder contents =
     (case classifyContents h sourceFolder contents of (includeContents, excludeContents) \<Rightarrow>
      (case tl_find h sourceFolder of
         Inl e \<Rightarrow> Inl e
       | Inr allPaths \<Rightarrow>
         (case removeFolders h allPaths [] of
            Inl e \<Rightarrow> Inl e
          | Inr allFiles \<Rightarrow>
             (case includeLoop h (getMatchOptions h) allFiles
                     (addIncludeAll includeContents excludeContents) (Map.empty, []) of
                Inl e \<Rightarrow> Inl e
              | Inr (pathsSeen, files) \<Rightarrow>
                  Inr (excludeLoop h (getMatchOptions h) excludeContents files)))))"

subsection \<open>Target paths and the cleanup command\<close>

definition backslash :: char where
  "backslash = CHR 0x5C"

definition dquote :: char where
  "dquote = CHR 0x22"

definition squote :: char where
  "squote = CHR 0x27"

text \<open>
  \<^verbatim>\<open>s.replace(/^c/g, "")\<close> for a single character \<open>c\<close>: the pattern is anchored at the
  start of the string, so at most one character goes.
\<close>

definition replaceLeading :: "char \<Rightarrow> string \<Rightarrow> string" where
  "replaceLeading c s = (case s of [] \<Rightarrow> [] | x # xs \<Rightarrow> if x = c then xs else s)"

text \<open>
  The relative path of a file. \<^verbatim>\<open>fileToCopy.substring(sourceFolder.length)\<close> skips as
  many code units as the source folder has, here as many bytes: the same string for a
  path that starts with the source folder, and for ASCII strings.
\<close>

definition relativePath :: "host \<Rightarrow> bool \<Rightarrow> string \<Rightarrow> string \<Rightarrow> string" where
  "relativePath h flattenFolders sourceFolder fileToCopy =
     (if flattenFolders then path_basename h fileToCopy
      else replaceLeading (CHR ''/'')
             (replaceLeading backslash (drop (length sourceFolder) fileToCopy)))"

definition targetPath :: "host \<Rightarrow> bool \<Rightarrow> string \<Rightarrow> string \<Rightarrow> string \<Rightarrow> string" where
  "targetPath h flattenFolders sourceFolder targetFolder fileToCopy =
     posix_join h targetFolder (relativePath h flattenFolders sourceFolder fileToCopy)"

text \<open>
  \<open>getCleanTargetFolderCmd\<close>; the flag is the task input \<^verbatim>\<open>isWindowsOnTarget\<close>, which
  the function reads itself.
\<close>

definition getCleanTargetFolderCmd :: "bool \<Rightarrow> string \<Rightarrow> string" where
  "getCleanTargetFolderCmd isWindowsOnTarget targetFolder =
     (if isWindowsOnTarget
      then ''del /q '' @ [dquote] @ targetFolder @ [backslash] @ ''*'' @ [dquote] @
           '' && FOR /D %p IN ('' @ [dquote] @ targetFolder @ [backslash] @ ''*.*'' @ [dquote] @
           '') DO rmdir '' @ [dquote] @ ''%p'' @ [dquote] @ '' /s /q''
      else ''bash -c '' @ [dquote] @ ''rm -rf '' @ [squote] @ targetFolder @ [squote] @
           ''/*'' @ [dquote])"

subsection \<open>The run\<close>

text \<open>The localised messages the task builds with \<^verbatim>\<open>tl.loc\<close>, and errors of collaborators.\<close>

datatype message =
    External string
  | SourceNotFolder
  | CleanTargetFolder string
  | CleanTargetFolderFailed message
  | CopyingFiles nat
  | StartedFileCopy string string
  | FileExists string
  | FailedOnFile string message
  | CopyCompleted nat
  | NumberFailed nat
  | NothingToCopy

text \<open>What a run does to the outside, in order: the calls on the SSH helper and on the task library.\<close>

datatype event =
    SetupConnection
  | RunCommandOnRemoteMachine string
  | CheckRemotePathExists string
  | UploadFile string string
  | CloseConnection
  | ConsoleLog message
  | TlError message
  | TlWarning message
  | SetResultFailed message

text \<open>
  The SSH helper. A call may throw (\<open>Some\<close> or \<open>Inl\<close> with the error text). The
  answers of the existence check and of the upload may depend on everything the run
  did before the call.
\<close>

record ssh =
  setupConnection :: "string option"
  runCommandOnRemoteMachine :: "string \<Rightarrow> string option"
  checkRemotePathExists :: "event list \<Rightarrow> string \<Rightarrow> string + bool"
  uploadFile :: "event list \<Rightarrow> string \<Rightarrow> string \<Rightarrow> string option"

text \<open>The task inputs the run reads once the endpoint is known.\<close>

record inputs =
  contents :: "string list"
  sourceFolder :: string
  targetFolderInput :: "string option"
  cleanTargetFolder :: bool
  overwrite :: bool
  failOnEmptySource :: bool
  flattenFolders :: bool
  isWindowsOnTarget :: bool

text \<open>An absent or empty target folder is \<^verbatim>\<open>./\<close>; a leading \<^verbatim>\<open>~/\<close> becomes \<^verbatim>\<open>./\<close>.\<close>

definition normalizeTargetFolder :: "string option \<Rightarrow> string" where
  "normalizeTargetFolder t =
     (case t of
        None \<Rightarrow> ''./''
      | Some targetFolder \<Rightarrow>
          if targetFolder = [] then ''./''
          else if take 2 targetFolder = ''~/'' then ''./'' @ drop 2 targetFolder
          else targetFolder)"

text \<open>The values a JavaScript condition may test here, and their truthiness.\<close>

datatype js_value = Undefined | Null | Array "string list"

fun truthy :: "js_value \<Rightarrow> bool" where
  "truthy Undefined = False"
| "truthy Null = False"
| "truthy (Array xs) = True"

text \<open>
  The body of the copy loop for one file, on the events so far and the failure count.
  Whatever is thrown between the existence check and the end of the upload is caught,
  reported with \<^verbatim>\<open>tl.error\<close> and counted.
\<close>

definition uploadStep ::
  "ssh \<Rightarrow> string \<Rightarrow> string \<Rightarrow> event list \<times> nat \<Rightarrow> event list \<times> nat" where
  "uploadStep s fileToCopy target st =
     (case st of (tr, failureCount) \<Rightarrow>
      (case uploadFile s tr fileToCopy target of
         Some err \<Rightarrow>
           (tr @ [UploadFile fileToCopy target, TlError (FailedOnFile fileToCopy (External err))],
            failureCount + 1)
       | None \<Rightarrow> (tr @ [UploadFile fileToCopy target], failureCount)))"

definition copyFile ::
  "host \<Rightarrow> ssh \<Rightarrow> inputs \<Rightarrow> string \<Rightarrow> string \<Rightarrow> event list \<times> nat \<Rightarrow> event list \<times> nat" where
  "copyFile h s i targetFolder fileToCopy st =
     (case st of (tr, failureCount) \<Rightarrow>
      (let target = targetPath h (flattenFolders i) (sourceFolder i) targetFolder fileToCopy;
           tr1 = tr @ [ConsoleLog (StartedFileCopy fileToCopy target)]
       in if \<not> overwrite i
          then (case checkRemotePathExists s tr1 target of
                  Inl err \<Rightarrow>
                    (tr1 @ [CheckRemotePathExists target,
                            TlError (FailedOnFile fileToCopy (External err))],
                     failureCount + 1)
                | Inr fileExists \<Rightarrow>
                    if fileExists
                    then (tr1 @ [CheckRemotePathExists target,
                                 TlError (FailedOnFile fileToCopy (FileExists target))],
                          failureCount + 1)
                    else uploadStep s fileToCopy target
                           (tr1 @ [CheckRemotePathExists target], failureCount))
          else uploadStep s fileToCopy target (tr1, failureCount)))"

fun copyLoop ::
  "host \<Rightarrow> ssh \<Rightarrow> inputs \<Rightarrow> string \<Rightarrow> string list \<Rightarrow> event list \<times> nat \<Rightarrow> event list \<times> nat" where
  "copyLoop h s i targetFolder [] st = st"
| "copyLoop h s i targetFolder (fileToCopy # filesToCopy) st =
     copyLoop h s i targetFolder filesToCopy (copyFile h s i targetFolder fileToCopy st)"

text \<open>
  Where the \<^verbatim>\<open>try\<close> block of \<open>run\<close> ends: the events so far, whether \<open>sshHelper\<close> has
  been assigned, what was thrown if anything, and the failure count of the copy loop
  (0 when the loop was not reached).
\<close>

record attempt =
  events :: "event list"
  sshHelper :: bool
  thrown :: "message option"
  failures :: nat

definition copyPhase ::
  "host \<Rightarrow> ssh \<Rightarrow> inputs \<Rightarrow> string \<Rightarrow> string list \<Rightarrow> event list \<Rightarrow> attempt" where
  "copyPhase h s i targetFolder filesToCopy tr =
     (case copyLoop h s i targetFolder filesToCopy
             (tr @ [ConsoleLog (CopyingFiles (length filesToCopy))], 0) of
        (tr1, failureCount) \<Rightarrow>
          (let tr2 = tr1 @ [ConsoleLog (CopyCompleted (length filesToCopy))]
           in \<lparr>events = (if failureCount \<noteq> 0
                          then tr2 @ [SetResultFailed (NumberFailed failureCount)] else tr2),
               sshHelper = True, thrown = None, failures = failureCount\<rparr>))"

definition selectPhase :: "host \<Rightarrow> ssh \<Rightarrow> inputs \<Rightarrow> string \<Rightarrow> event list \<Rightarrow> attempt" where
  "selectPhase h s i targetFolder tr =
     (case getFilesToCopy h (sourceFolder i) (contents i) of
        Inl err \<Rightarrow> \<lparr>events = tr, sshHelper = True, thrown = Some (External err), failures = 0\<rparr>
      | Inr filesToCopy \<Rightarrow>
          if truthy (Array filesToCopy) then copyPhase h s i targetFolder filesToCopy tr
          else if failOnEmptySource i
          then \<lparr>events = tr, sshHelper = True, thrown = Some NothingToCopy, failures = 0\<rparr>
          else \<lparr>events = tr @ [TlWarning NothingToCopy], sshHelper = True, thrown = None,
                failures = 0\<rparr>)"

definition cleanPhase :: "host \<Rightarrow> ssh \<Rightarrow> inputs \<Rightarrow> string \<Rightarrow> event list \<Rightarrow> attempt" where
  "cleanPhase h s i targetFolder tr =
     (if cleanTargetFolder i
      then (let cleanTargetFolderCmd = getCleanTargetFolderCmd (isWindowsOnTarget i) targetFolder;
                tr1 = tr @ [ConsoleLog (CleanTargetFolder targetFolder),
                            RunCommandOnRemoteMachine cleanTargetFolderCmd]
            in case runCommandOnRemoteMachine s cleanTargetFolderCmd of
                 Some err \<Rightarrow>
                   \<lparr>events = tr1, sshHelper = True,
                    thrown = Some (CleanTargetFolderFailed (External err)), failures = 0\<rparr>
               | None \<Rightarrow> selectPhase h s i targetFolder tr1)
      else selectPhase h s i targetFolder tr)"

text \<open>
  The \<^verbatim>\<open>try\<close> block. Its argument is the outcome of reading the task inputs, which
  throws when a required input is missing (\<open>Inl\<close>).
\<close>

definition run_try :: "host \<Rightarrow> ssh \<Rightarrow> string + inputs \<Rightarrow> attempt" where
  "run_try h s inp =
     (case inp of
        Inl err \<Rightarrow> \<lparr>events = [], sshHelper = False, thrown = Some (External err), failures = 0\<rparr>
      | Inr i \<Rightarrow>
         (case tl_stats h (sourceFolder i) of
            Inl err \<Rightarrow>
              \<lparr>events = [], sshHelper = False, thrown = Some (External err), failures = 0\<rparr>
          | Inr isDirectory \<Rightarrow>
              if \<not> isDirectory
              then \<lparr>events = [], sshHelper = False, thrown = Some SourceNotFolder, failures = 0\<rparr>
              else (case setupConnection s of
                      Some err \<Rightarrow>
                        \<lparr>events = [SetupConnection], sshHelper = True,
                         thrown = Some (External err), failures = 0\<rparr>
                    | None \<Rightarrow>
                        cleanPhase h s i (normalizeTargetFolder (targetFolderInput i))
                          [SetupConnection])))"

text \<open>
  \<open>run\<close>: the \<^verbatim>\<open>catch\<close> clause sets the task result to failed with what was thrown,
  and the \<^verbatim>\<open>finally\<close> clause closes the connection if \<open>sshHelper\<close> is set.
\<close>

definition run :: "host \<Rightarrow> ssh \<Rightarrow> string + inputs \<Rightarrow> event list" where
  "run h s inp =
     (let a = run_try h s inp;
          tr = (case thrown a of
                  Some err \<Rightarrow> events a @ [SetResultFailed err]
                | None \<Rightarrow> events a)
      in if sshHelper a then tr @ [CloseConnection] else tr)"

text \<open>The task result is failed when \<^verbatim>\<open>tl.setResult\<close> was called with \<^verbatim>\<open>Failed\<close>.\<close>

fun isSetResultFailed :: "event \<Rightarrow> bool" where
  "isSetResultFailed (SetResultFailed m) = True"
| "isSetResultFailed e = False"

definition taskFailed :: "event list \<Rightarrow> bool" where
  "taskFailed tr = list_ex isSetResultFailed tr"

subsection \<open>Notions of the specification\<close>

text \<open>The number of consecutive \<open>!\<close> characters at the start of a pattern.\<close>

definition leadingBangCount :: "string \<Rightarrow> nat" where
  "leadingBangCount pattern = length (takeWhile (\<lambda>c. c = CHR ''!'') pattern)"

text \<open>Removal of duplicates that keeps, of every element, its first occurrence.\<close>

fun firstSeen :: "'a list \<Rightarrow> 'a list" where
  "firstSeen [] = []"
| "firstSeen (x # xs) = x # firstSeen (filter (\<lambda>y. y \<noteq> x) xs)"


text \<open>The files tried by a run, with their targets, and the failures it reported, in order.\<close>

fun startedFiles :: "event list \<Rightarrow> (string \<times> string) list" where
  "startedFiles [] = []"
| "startedFiles (ConsoleLog (StartedFileCopy f t) # tr) = (f, t) # startedFiles tr"
| "startedFiles (e # tr) = startedFiles tr"

fun failedFiles :: "event list \<Rightarrow> string list" where
  "failedFiles [] = []"
| "failedFiles (TlError (FailedOnFile f m) # tr) = f # failedFiles tr"
| "failedFiles (e # tr) = failedFiles tr"



fun isTransfer :: "event \<Rightarrow> bool" where
  "isTransfer (CheckRemotePathExists t) = True"
| "isTransfer (UploadFile f t) = True"
| "isTransfer e = False"

fun isWarning :: "event \<Rightarrow> bool" where
  "isWarning (TlWarning m) = True"
| "isWarning e = False"

text \<open>What the first \<open>k\<close> exclude patterns leave of the files of the include phase.\<close>

definition survivors :: "host \<Rightarrow> string list \<Rightarrow> string list \<Rightarrow> nat \<Rightarrow> string list" where
  "survivors h files excludeContents k =
     excludeLoop h (getMatchOptions h) (take k excludeContents) files"



text \<open>Paths that are not the two property names the dictionary object mishandles.\<close>

definition ordinaryPaths :: "string list \<Rightarrow> bool" where
  "ordinaryPaths paths \<longleftrightarrow> ''__proto__'' \<notin> set paths \<and> ''hasOwnProperty'' \<notin> set paths"

text \<open>Whether the run gets as far as creating the SSH helper.\<close>

definition helperCreated :: "host \<Rightarrow> string + inputs \<Rightarrow> bool" where
  "helperCreated h inp =
     (case inp of Inl err \<Rightarrow> False | Inr i \<Rightarrow> tl_stats h (sourceFolder i) = Inr True)"

text \<open>What holds where the \<^verbatim>\<open>try\<close> block ends, whichever way it ends.\<close>

definition settled :: "attempt \<Rightarrow> bool" where
  "settled a \<longleftrightarrow>
     failures a = length (failedFiles (events a))
     \<and> (taskFailed (events a) \<longleftrightarrow> failures a \<noteq> 0)
     \<and> \<not> list_ex isWarning (events a)
     \<and> count_list (events a) CloseConnection = 0
     \<and> SetResultFailed NothingToCopy \<notin> set (events a)
     \<and> thrown a \<noteq> Some NothingToCopy"

subsection \<open>A small source tree\<close>

text \<open>
  A Linux agent with the tree \<^verbatim>\<open>/src/a.txt\<close>, \<^verbatim>\<open>/src/.hidden\<close>, \<^verbatim>\<open>/src/sub/b.txt\<close>.
  Its matcher knows three kinds of pattern only: \<^verbatim>\<open>**\<close> accepts every path, a pattern
  with one leading \<open>!\<close> accepts every path but the one after the \<open>!\<close>, any other
  pattern accepts the path equal to it.
\<close>

definition exampleMatch :: "match_options \<Rightarrow> string \<Rightarrow> string \<Rightarrow> bool" where
  "exampleMatch options pattern file =
     (if pattern = ''**'' then True
      else if take 1 pattern = ''!'' then file \<noteq> drop 1 pattern
      else file = pattern)"

definition exampleHost :: host where
  "exampleHost =
     \<lparr>os_platform = ''linux'',
      path_join = (\<lambda>a b. a @ ''/'' @ b),
      path_basename = (\<lambda>p. rev (takeWhile (\<lambda>c. c \<noteq> CHR ''/'') (rev p))),
      posix_join = (\<lambda>a b. a @ b),
      minimatch = exampleMatch,
      tl_find = (\<lambda>d. Inr [''/src'', ''/src/a.txt'', ''/src/.hidden'', ''/src/sub'',
                            ''/src/sub/b.txt'']),
      tl_stats = (\<lambda>p. Inr (p = ''/src'' \<or> p = ''/src/sub''))\<rparr>"

text \<open>
  The same agent run with the working directory \<^verbatim>\<open>.\<close> as source folder, where
  \<^verbatim>\<open>path.join\<close> gives the name of a file for its path; the directory holds a file
  named \<^verbatim>\<open>__proto__\<close>, or one named \<^verbatim>\<open>hasOwnProperty\<close>, and \<^verbatim>\<open>z.txt\<close>.
\<close>

definition protoHost :: host where
  "protoHost =
     exampleHost
       \<lparr>path_join := (\<lambda>a b. if a = ''.'' then b else a @ ''/'' @ b),
        tl_find := (\<lambda>d. Inr [''.'', ''__proto__'', ''z.txt'']),
        tl_stats := (\<lambda>p. Inr (p = ''.''))\<rparr>"

definition methodHost :: host where
  "methodHost = protoHost\<lparr>tl_find := (\<lambda>d. Inr [''.'', ''hasOwnProperty'', ''z.txt''])\<rparr>"


text \<open>
  A remote that has \<^verbatim>\<open>./a.txt\<close> already, refuses the upload of \<^verbatim>\<open>/src/.hidden\<close> and
  fails every command.
\<close>

definition exampleSsh :: ssh where
  "exampleSsh =
     \<lparr>setupConnection = None,
      runCommandOnRemoteMachine = (\<lambda>cmd. Some ''exit code 1''),
      checkRemotePathExists = (\<lambda>tr p. Inr (p = ''./a.txt'')),
      uploadFile = (\<lambda>tr f t. if f = ''/src/.hidden'' then Some ''permission denied'' else None)\<rparr>"

definition exampleInputs :: inputs where
  "exampleInputs =
     \<lparr>contents = [''a.txt'', '' .hidden'', ''sub/b.txt'', ''a.txt''],
      sourceFolder = ''/src'',
      targetFolderInput = None,
      cleanTargetFolder = False,
      overwrite = False,
      failOnEmptySource = False,
      flattenFolders = False,
      isWindowsOnTarget = False\<rparr>"

section \<open>Properties of the selection\<close>

subsection \<open>Facts about the small source tree\<close>

lemma exampleHost_fields:
  "os_platform exampleHost = ''linux''"
  "path_join exampleHost a b = a @ ''/'' @ b"
  "path_basename exampleHost p = rev (takeWhile (\<lambda>c. c \<noteq> CHR ''/'') (rev p))"
  "posix_join exampleHost a b = a @ b"
  "minimatch exampleHost = exampleMatch"
  "tl_find exampleHost d =
     Inr [''/src'', ''/src/a.txt'', ''/src/.hidden'', ''/src/sub'', ''/src/sub/b.txt'']"
  "tl_stats exampleHost p = Inr (p = ''/src'' \<or> p = ''/src/sub'')"
  by (simp_all add: exampleHost_def)

lemma example_removeFolders:
  "removeFolders exampleHost
     [''/src'', ''/src/a.txt'', ''/src/.hidden'', ''/src/sub'', ''/src/sub/b.txt''] [] =
   Inr [''/src/a.txt'', ''/src/.hidden'', ''/src/sub/b.txt'']"
  by (simp add: exampleHost_fields)

lemma example_trim:
  "trim ''a.txt'' = ''a.txt''"
  "trim '' .hidden'' = ''.hidden''"
  "trim ''sub/b.txt'' = ''sub/b.txt''"
  "trim ''!sub/b.txt'' = ''!sub/b.txt''"
  "trim ''none.txt'' = ''none.txt''"
  by (simp_all add: trim_def isWhiteSpace_def isWhiteSpace2_def isWhiteSpace3_def)


lemma example_classify_exclude:
  "classifyContents exampleHost ''/src'' [''!sub/b.txt''] = ([], [''!/src/sub/b.txt''])"
  by (simp add: classifyContents_def classifyPattern_def example_trim exampleHost_fields)

subsection \<open>Classification\<close>

lemma leadingNegations_eq:
  "leadingNegations p (b, n) =
     (if even (leadingBangCount p) then b else \<not> b, n + leadingBangCount p)"
  by (induction p arbitrary: b n) (auto simp: leadingBangCount_def)

lemma take_leadingBangCount:
  "take (leadingBangCount p) p = replicate (leadingBangCount p) (CHR ''!'')"
proof -
  let ?t = "takeWhile (\<lambda>c. c = CHR ''!'') p"
  have "\<forall>c \<in> set ?t. c = CHR ''!''"
    by (auto dest: set_takeWhileD)
  then have "replicate (length ?t) (CHR ''!'') = ?t"
    by (rule replicate_length_same)
  moreover have "take (length ?t) p = ?t"
    by (rule takeWhile_eq_take [symmetric])
  ultimately show ?thesis
    by (simp add: leadingBangCount_def)
qed

lemma classifyPattern_eq:
  "classifyPattern h src p (inc, exc) =
     (if odd (leadingBangCount p)
      then (inc, exc @ [replicate (leadingBangCount p) (CHR ''!'') @
                        path_join h src (drop (leadingBangCount p) p)])
      else (inc @ [path_join h src p], exc))"
  by (simp add: classifyPattern_def leadingNegations_eq take_leadingBangCount)

lemma classifyContents_snoc:
  "classifyContents h src (raws @ [raw]) =
     classifyPattern h src (trim raw) (classifyContents h src raws)"
  by (simp add: classifyContents_def)

text \<open>
  Claim C1. The classification of one more raw pattern, after trimming: with an odd
  number of leading \<open>!\<close> it becomes an exclude pattern, those \<open>!\<close> characters followed
  by the join of the source folder and the rest of the pattern; with none or an even
  number it becomes an include pattern, the join of the source folder and the whole
  pattern, its leading \<open>!\<close> characters included.
\<close>

theorem pattern_classification:
  "classifyContents h src (raws @ [raw]) =
     (case classifyContents h src raws of
        (includeContents, excludeContents) \<Rightarrow>
          if odd (leadingBangCount (trim raw))
          then (includeContents,
                excludeContents @
                  [replicate (leadingBangCount (trim raw)) (CHR ''!'') @
                   path_join h src (drop (leadingBangCount (trim raw)) (trim raw))])
          else (includeContents @ [path_join h src (trim raw)], excludeContents))"
  by (cases "classifyContents h src raws")
     (simp only: classifyContents_snoc classifyPattern_eq prod.case)

theorem pattern_classification_witness:
  "classifyContents exampleHost ''/src'' ([''a.txt''] @ ['' !!!sub/b.txt '']) =
     ([''/src/a.txt''], [''!!!/src/sub/b.txt''])
   \<and> classifyContents exampleHost ''/src'' ([''a.txt''] @ [''!!a.txt'']) =
     ([''/src/a.txt'', ''/src/!!a.txt''], [])"
proof -
  have t1: "trim '' !!!sub/b.txt '' = ''!!!sub/b.txt''"
    by (simp add: trim_def isWhiteSpace_def isWhiteSpace2_def isWhiteSpace3_def)
  have t2: "trim ''!!a.txt'' = ''!!a.txt''"
    by (simp add: trim_def isWhiteSpace_def isWhiteSpace2_def isWhiteSpace3_def)
  have pj: "\<And>a b. path_join exampleHost a b = a @ ''/'' @ b"
    by (simp add: exampleHost_def)
  have c: "classifyContents exampleHost ''/src'' [''a.txt''] = ([''/src/a.txt''], [])"
    by (simp add: classifyContents_def classifyPattern_def example_trim pj)
  have n1: "leadingBangCount ''!!!sub/b.txt'' = Suc (Suc (Suc 0))"
    by (simp add: leadingBangCount_def)
  have n2: "leadingBangCount ''!!a.txt'' = Suc (Suc 0)"
    by (simp add: leadingBangCount_def)
  show ?thesis
    using pattern_classification [of exampleHost "''/src''" "[''a.txt'']" "'' !!!sub/b.txt ''"]
      pattern_classification [of exampleHost "''/src''" "[''a.txt'']" "''!!a.txt''"]
    by (simp add: t1 t2 c n1 n2 pj)
qed

subsection \<open>First occurrences\<close>

lemma firstSeen_filter: "firstSeen (filter P xs) = filter P (firstSeen xs)"
proof (induction xs rule: firstSeen.induct)
  case 1
  show ?case by simp
next
  case (2 x xs)
  show ?case
  proof (cases "P x")
    case True
    have "filter (\<lambda>y. y \<noteq> x) (filter P xs) = filter P (filter (\<lambda>y. y \<noteq> x) xs)"
      by (simp add: conj_commute)
    with True "2.IH" show ?thesis by simp
  next
    case False
    have "filter P (filter (\<lambda>y. y \<noteq> x) xs) = filter P xs"
      using False by (auto intro: filter_cong)
    with False "2.IH" show ?thesis by simp
  qed
qed

lemma set_firstSeen: "set (firstSeen xs) = set xs"
  by (induction xs rule: firstSeen.induct) auto

lemma distinct_firstSeen: "distinct (firstSeen xs)"
  by (induction xs rule: firstSeen.induct) (auto simp: set_firstSeen)

lemma firstSeen_distinct: "distinct xs \<Longrightarrow> firstSeen xs = xs"
proof (induction xs)
  case Nil
  show ?case by simp
next
  case (Cons x xs)
  then have "filter (\<lambda>y. y \<noteq> x) xs = xs"
    by (auto intro: filter_True)
  with Cons show ?case by simp
qed

lemma firstSeen_seen: "m \<in> set xs \<Longrightarrow> firstSeen (xs @ m # ys) = firstSeen (xs @ ys)"
proof (induction xs arbitrary: ys rule: firstSeen.induct)
  case 1
  then show ?case by simp
next
  case (2 x xs)
  show ?case
  proof (cases "m = x")
    case True
    then show ?thesis by simp
  next
    case False
    with "2.prems" have "m \<in> set (filter (\<lambda>y. y \<noteq> x) xs)" by simp
    from "2.IH" [OF this, of "filter (\<lambda>y. y \<noteq> x) ys"] False show ?thesis by simp
  qed
qed

lemma firstSeen_firstSeen_append: "firstSeen (firstSeen xs @ ys) = firstSeen (xs @ ys)"
proof (induction xs arbitrary: ys rule: firstSeen.induct)
  case 1
  show ?case by simp
next
  case (2 x xs)
  let ?zs = "filter (\<lambda>y. y \<noteq> x) xs"
  have "filter (\<lambda>y. y \<noteq> x) (firstSeen ?zs) = firstSeen ?zs"
    by (simp add: firstSeen_filter [symmetric])
  with "2.IH" [of "filter (\<lambda>y. y \<noteq> x) ys"] show ?case by simp
qed


lemma addMatches_ordinary:
  assumes "dom pathsSeen = set files" and "distinct files"
    and "ordinaryPaths files" and "ordinaryPaths matches"
  shows "\<exists>seen. addMatches matches (pathsSeen, files) = Inr (seen, firstSeen (files @ matches))
               \<and> dom seen = set (firstSeen (files @ matches))"
  using assms
proof (induction matches arbitrary: pathsSeen files)
  case Nil
  then show ?case by (simp add: firstSeen_distinct)
next
  case (Cons m ms)
  from Cons.prems have "''hasOwnProperty'' \<notin> dom pathsSeen"
    by (simp add: ordinaryPaths_def)
  then have own: "hasOwnProperty pathsSeen m = Inr (pathsSeen m \<noteq> None)"
    by (simp add: hasOwnProperty_def domIff)
  from Cons.prems have m: "m \<noteq> ''__proto__''" "m \<noteq> ''hasOwnProperty''" and ms: "ordinaryPaths ms"
    by (auto simp: ordinaryPaths_def)
  show ?case
  proof (cases "pathsSeen m")
    case None
    then have "m \<notin> dom pathsSeen" by (simp add: domIff)
    with Cons.prems have "m \<notin> set files" by simp
    with Cons.prems m have "dom (pathsSeen(m \<mapsto> True)) = set (files @ [m])"
      "distinct (files @ [m])" "ordinaryPaths (files @ [m])"
      by (auto simp: ordinaryPaths_def)
    from Cons.IH [OF this ms] None own m show ?thesis
      by (simp add: setProperty_def del: fun_upd_apply)
  next
    case (Some b)
    then have "m \<in> dom pathsSeen" by (simp add: domIff)
    with Cons.prems have "m \<in> set files" by simp
    then have "firstSeen (files @ m # ms) = firstSeen (files @ ms)"
      by (rule firstSeen_seen)
    with Cons.IH [OF Cons.prems(1-3) ms] Some own show ?thesis by simp
  qed
qed

lemma ordinaryPaths_filter: "ordinaryPaths xs \<Longrightarrow> ordinaryPaths (filter P xs)"
  by (simp add: ordinaryPaths_def)

lemma includeLoop_ordinary:
  assumes "dom pathsSeen = set files" and "distinct files"
    and "ordinaryPaths files" and "ordinaryPaths allFiles"
  shows "\<exists>seen. includeLoop h opts allFiles patterns (pathsSeen, files) =
                 Inr (seen, firstSeen (files @
                        concat (map (\<lambda>pattern. minimatch_match h allFiles pattern opts) patterns)))"
  using assms
proof (induction patterns arbitrary: pathsSeen files)
  case Nil
  then show ?case by (simp add: firstSeen_distinct)
next
  case (Cons p ps)
  let ?ms = "minimatch_match h allFiles p opts"
  from Cons.prems(4) have "ordinaryPaths ?ms"
    by (simp add: minimatch_match_def ordinaryPaths_filter)
  from addMatches_ordinary [OF Cons.prems(1-3) this]
  obtain seen where st: "addMatches ?ms (pathsSeen, files) = Inr (seen, firstSeen (files @ ?ms))"
    and d: "dom seen = set (firstSeen (files @ ?ms))"
    by blast
  from Cons.prems(3) \<open>ordinaryPaths ?ms\<close> have o: "ordinaryPaths (firstSeen (files @ ?ms))"
    by (simp add: ordinaryPaths_def set_firstSeen)
  from Cons.IH [OF d distinct_firstSeen o Cons.prems(4)] st show ?case
    by (simp add: firstSeen_firstSeen_append)
qed

lemma removeFolders_eq:
  "removeFolders h ps acc = Inr fs \<Longrightarrow> fs = acc @ filter (\<lambda>p. tl_stats h p = Inr False) ps"
proof (induction ps arbitrary: acc)
  case Nil
  then show ?case by simp
next
  case (Cons p ps)
  then obtain d where d: "tl_stats h p = Inr d"
    by (cases "tl_stats h p") simp_all
  with Cons.prems have "removeFolders h ps (if \<not> d then acc @ [p] else acc) = Inr fs"
    by simp
  from Cons.IH [OF this] d show ?case by simp
qed

text \<open>
  Where no file under the source folder has one of the two mishandled names, the
  selection is the exclude loop applied to the first occurrences among the matches of
  the include patterns.
\<close>

lemma getFilesToCopy_ordinary:
  assumes "tl_find h src = Inr allPaths"
    and "removeFolders h allPaths [] = Inr allFiles"
    and "classifyContents h src raws = (inc, exc)"
    and "ordinaryPaths allFiles"
  shows "getFilesToCopy h src raws =
           Inr (excludeLoop h (getMatchOptions h) exc
                 (firstSeen (concat (map (\<lambda>pattern. minimatch_match h allFiles pattern (getMatchOptions h))
                                      (addIncludeAll inc exc)))))"
proof -
  have "\<exists>seen. includeLoop h (getMatchOptions h) allFiles (addIncludeAll inc exc) (Map.empty, []) =
          Inr (seen, firstSeen ([] @ concat (map (\<lambda>pattern. minimatch_match h allFiles pattern (getMatchOptions h))
                                 (addIncludeAll inc exc))))"
    by (rule includeLoop_ordinary) (simp_all add: ordinaryPaths_def assms(4) [unfolded ordinaryPaths_def])
  with assms(1-3) show ?thesis
    by (auto simp: getFilesToCopy_def)
qed

lemma include_only_selection_ordinary:
  assumes "tl_find h src = Inr allPaths"
    and "removeFolders h allPaths [] = Inr allFiles"
    and "classifyContents h src raws = (includeContents, [])"
    and "ordinaryPaths allFiles"
  shows "allFiles = filter (\<lambda>p. tl_stats h p = Inr False) allPaths
         \<and> getFilesToCopy h src raws =
             Inr (firstSeen (concat (map (\<lambda>pattern. filter (minimatch h (getMatchOptions h) pattern) allFiles)
                                      includeContents)))"
proof
  from removeFolders_eq [OF assms(2)]
  show "allFiles = filter (\<lambda>p. tl_stats h p = Inr False) allPaths" by simp
next
  from getFilesToCopy_ordinary [OF assms]
  show "getFilesToCopy h src raws =
          Inr (firstSeen (concat (map (\<lambda>pattern. filter (minimatch h (getMatchOptions h) pattern) allFiles)
                                   includeContents)))"
    by (simp add: addIncludeAll_def minimatch_match_def)
qed

lemma protoHost_fields:
  "path_join protoHost a b = (if a = ''.'' then b else a @ ''/'' @ b)"
  "minimatch protoHost = exampleMatch"
  "os_platform protoHost = ''linux''"
  "tl_find protoHost d = Inr [''.'', ''__proto__'', ''z.txt'']"
  "tl_stats protoHost p = Inr (p = ''.'')"
  "path_join methodHost a b = (if a = ''.'' then b else a @ ''/'' @ b)"
  "minimatch methodHost = exampleMatch"
  "os_platform methodHost = ''linux''"
  "tl_find methodHost d = Inr [''.'', ''hasOwnProperty'', ''z.txt'']"
  "tl_stats methodHost p = Inr (p = ''.'')"
  by (simp_all add: protoHost_def methodHost_def exampleHost_def)

text \<open>
  Claim C2. Without exclude patterns the selection should be the matches of the include
  patterns with every path kept once, where it occurs first. The code does not do this
  for every source tree. With the working directory as source folder, a file named
  \<^verbatim>\<open>__proto__\<close> and the patterns \<^verbatim>\<open>__proto__\<close> and \<^verbatim>\<open>**\<close>, the path \<^verbatim>\<open>__proto__\<close> is
  selected twice, because the dictionary object never records it. With a file named
  \<^verbatim>\<open>hasOwnProperty\<close> and the pattern \<^verbatim>\<open>**\<close>, the selection throws at the next match,
  because recording that path hides the method of the dictionary object.
\<close>

theorem selection_repeats_proto_path:
  "classifyContents protoHost ''.'' [''__proto__'', ''**''] = ([''__proto__'', ''**''], [])
   \<and> getFilesToCopy protoHost ''.'' [''__proto__'', ''**''] =
       Inr [''__proto__'', ''__proto__'', ''z.txt'']
   \<and> firstSeen (concat (map (\<lambda>pattern. filter (minimatch protoHost (getMatchOptions protoHost) pattern)
                                          [''__proto__'', ''z.txt''])
                         [''__proto__'', ''**''])) =
       [''__proto__'', ''z.txt'']
   \<and> getFilesToCopy methodHost ''.'' [''**''] =
       Inl ''TypeError: pathsSeen.hasOwnProperty is not a function''"
proof -
  have t: "trim ''__proto__'' = ''__proto__''" "trim ''**'' = ''**''"
    by (simp_all add: trim_def isWhiteSpace_def isWhiteSpace2_def isWhiteSpace3_def)
  have c1: "classifyContents protoHost ''.'' [''__proto__'', ''**''] = ([''__proto__'', ''**''], [])"
    by (simp add: classifyContents_def classifyPattern_def t protoHost_fields)
  have c2: "classifyContents methodHost ''.'' [''**''] = ([''**''], [])"
    by (simp add: classifyContents_def classifyPattern_def t protoHost_fields)
  have g1: "getFilesToCopy protoHost ''.'' [''__proto__'', ''**''] =
       Inr [''__proto__'', ''__proto__'', ''z.txt'']"
    by (simp add: getFilesToCopy_def c1 protoHost_fields addIncludeAll_def minimatch_match_def
        exampleMatch_def hasOwnProperty_def setProperty_def)
  have g2: "getFilesToCopy methodHost ''.'' [''**''] =
       Inl ''TypeError: pathsSeen.hasOwnProperty is not a function''"
    by (simp add: getFilesToCopy_def c2 protoHost_fields addIncludeAll_def minimatch_match_def
        exampleMatch_def hasOwnProperty_def setProperty_def)
  have f: "firstSeen (concat (map (\<lambda>pattern. filter (minimatch protoHost (getMatchOptions protoHost) pattern)
                                          [''__proto__'', ''z.txt''])
                         [''__proto__'', ''**''])) =
       [''__proto__'', ''z.txt'']"
    by (simp add: protoHost_fields exampleMatch_def)
  from c1 g1 f g2 show ?thesis by simp
qed

subsection \<open>Exclusion\<close>


lemma excludeLoop_snoc:
  "excludeLoop h opts (patterns @ [pattern]) files =
     minimatch_match h (excludeLoop h opts patterns files) pattern opts"
  by (induction patterns arbitrary: files) simp_all

text \<open>
  Claim C3. In a selection whose include phase returns, the exclude loop starts from
  the files of the include phase and the result is what all exclude patterns leave;
  the exclude pattern at position \<open>k\<close> is matched against what the patterns before it
  have left, and what it leaves is a subset of that and not longer.
\<close>

theorem exclude_narrowing:
  assumes "tl_find h src = Inr allPaths"
    and "removeFolders h allPaths [] = Inr allFiles"
    and "classifyContents h src raws = (includeContents, excludeContents)"
    and "includeLoop h (getMatchOptions h) allFiles
           (addIncludeAll includeContents excludeContents) (Map.empty, []) = Inr (pathsSeen, files)"
  shows "survivors h files excludeContents 0 = files
         \<and> getFilesToCopy h src raws =
             Inr (survivors h files excludeContents (length excludeContents))
         \<and> (\<forall>k. k < length excludeContents \<longrightarrow>
               survivors h files excludeContents (Suc k) =
                 minimatch_match h (survivors h files excludeContents k) (excludeContents ! k)
                   (getMatchOptions h)
               \<and> set (survivors h files excludeContents (Suc k))
                   \<subseteq> set (survivors h files excludeContents k)
               \<and> length (survivors h files excludeContents (Suc k))
                   \<le> length (survivors h files excludeContents k))"
proof -
  have start: "survivors h files excludeContents 0 = files"
    by (simp add: survivors_def)
  from assms have sel: "getFilesToCopy h src raws =
      Inr (survivors h files excludeContents (length excludeContents))"
    by (simp add: getFilesToCopy_def survivors_def)
  have step: "survivors h files excludeContents (Suc k) =
                 minimatch_match h (survivors h files excludeContents k) (excludeContents ! k)
                   (getMatchOptions h)"
    if "k < length excludeContents" for k
  proof -
    from that have "take (Suc k) excludeContents = take k excludeContents @ [excludeContents ! k]"
      by (rule take_Suc_conv_app_nth)
    then show ?thesis
      by (simp only: survivors_def excludeLoop_snoc)
  qed
  from start sel step show ?thesis
    by (simp add: minimatch_match_def)
qed

theorem exclude_narrowing_witness:
  "tl_find exampleHost ''/src'' =
     Inr [''/src'', ''/src/a.txt'', ''/src/.hidden'', ''/src/sub'', ''/src/sub/b.txt'']
   \<and> removeFolders exampleHost
        [''/src'', ''/src/a.txt'', ''/src/.hidden'', ''/src/sub'', ''/src/sub/b.txt''] [] =
      Inr [''/src/a.txt'', ''/src/.hidden'', ''/src/sub/b.txt'']
   \<and> classifyContents exampleHost ''/src'' [''!sub/b.txt''] = ([], [''!/src/sub/b.txt''])
   \<and> includeLoop exampleHost (getMatchOptions exampleHost)
        [''/src/a.txt'', ''/src/.hidden'', ''/src/sub/b.txt'']
        (addIncludeAll [] [''!/src/sub/b.txt'']) (Map.empty, []) =
      Inr ([''/src/a.txt'' \<mapsto> True, ''/src/.hidden'' \<mapsto> True, ''/src/sub/b.txt'' \<mapsto> True],
           [''/src/a.txt'', ''/src/.hidden'', ''/src/sub/b.txt''])
   \<and> (0::nat) < length [''!/src/sub/b.txt'']
   \<and> survivors exampleHost [''/src/a.txt'', ''/src/.hidden'', ''/src/sub/b.txt'']
        [''!/src/sub/b.txt''] 0 =
      [''/src/a.txt'', ''/src/.hidden'', ''/src/sub/b.txt'']
   \<and> survivors exampleHost [''/src/a.txt'', ''/src/.hidden'', ''/src/sub/b.txt'']
        [''!/src/sub/b.txt''] (Suc 0) =
      [''/src/a.txt'', ''/src/.hidden'']
   \<and> getFilesToCopy exampleHost ''/src'' [''!sub/b.txt''] = Inr [''/src/a.txt'', ''/src/.hidden'']"
proof -
  note h1 = exampleHost_fields(6) [of "''/src''"]
  note h2 = example_removeFolders
  note h3 = example_classify_exclude
  have h4: "includeLoop exampleHost (getMatchOptions exampleHost)
        [''/src/a.txt'', ''/src/.hidden'', ''/src/sub/b.txt'']
        (addIncludeAll [] [''!/src/sub/b.txt'']) (Map.empty, []) =
      Inr ([''/src/a.txt'' \<mapsto> True, ''/src/.hidden'' \<mapsto> True, ''/src/sub/b.txt'' \<mapsto> True],
           [''/src/a.txt'', ''/src/.hidden'', ''/src/sub/b.txt''])"
    by (simp add: addIncludeAll_def minimatch_match_def exampleHost_fields exampleMatch_def
        hasOwnProperty_def setProperty_def)
  have k: "(0::nat) < length [''!/src/sub/b.txt'']" by simp
  from exclude_narrowing [OF h1 h2 h3 h4]
  have "survivors exampleHost [''/src/a.txt'', ''/src/.hidden'', ''/src/sub/b.txt'']
          [''!/src/sub/b.txt''] 0 =
        [''/src/a.txt'', ''/src/.hidden'', ''/src/sub/b.txt'']"
    and "survivors exampleHost [''/src/a.txt'', ''/src/.hidden'', ''/src/sub/b.txt'']
          [''!/src/sub/b.txt''] (Suc 0) =
        [''/src/a.txt'', ''/src/.hidden'']"
    and "getFilesToCopy exampleHost ''/src'' [''!sub/b.txt''] = Inr [''/src/a.txt'', ''/src/.hidden'']"
    by (simp_all add: minimatch_match_def exampleHost_fields exampleMatch_def)
  with h1 h2 h3 h4 k show ?thesis by simp
qed




section \<open>Properties of the run\<close>

subsection \<open>The copy loop\<close>

lemma startedFiles_append: "startedFiles (a @ b) = startedFiles a @ startedFiles b"
  by (induction a rule: startedFiles.induct) simp_all

lemma failedFiles_append: "failedFiles (a @ b) = failedFiles a @ failedFiles b"
  by (induction a rule: failedFiles.induct) simp_all

lemmas trace_append = startedFiles_append failedFiles_append taskFailed_def

lemma copyFile_started:
  "startedFiles (fst (copyFile h s i tf f (tr, n))) =
     startedFiles tr @ [(f, targetPath h (flattenFolders i) (sourceFolder i) tf f)]"
  by (simp add: copyFile_def uploadStep_def Let_def trace_append split: sum.splits option.splits)

lemma copyFile_counted:
  "length (failedFiles (fst (copyFile h s i tf f (tr, n)))) + n =
     length (failedFiles tr) + snd (copyFile h s i tf f (tr, n))"
  by (simp add: copyFile_def uploadStep_def Let_def trace_append split: sum.splits option.splits)

lemma copyFile_quiet:
  "taskFailed (fst (copyFile h s i tf f (tr, n))) = taskFailed tr"
  "list_ex isWarning (fst (copyFile h s i tf f (tr, n))) = list_ex isWarning tr"
  "count_list (fst (copyFile h s i tf f (tr, n))) CloseConnection = count_list tr CloseConnection"
  by (simp_all add: copyFile_def uploadStep_def Let_def trace_append split: sum.splits option.splits)


lemma copyLoop_started:
  "startedFiles (fst (copyLoop h s i tf files (tr, n))) =
     startedFiles tr @ map (\<lambda>f. (f, targetPath h (flattenFolders i) (sourceFolder i) tf f)) files"
proof (induction files arbitrary: tr n)
  case Nil
  show ?case by simp
next
  case (Cons f fs)
  obtain tr' n' where st: "copyFile h s i tf f (tr, n) = (tr', n')"
    by (cases "copyFile h s i tf f (tr, n)")
  from copyFile_started [of h s i tf f tr n] st
  have "startedFiles tr' = startedFiles tr @ [(f, targetPath h (flattenFolders i) (sourceFolder i) tf f)]"
    by simp
  with Cons.IH [of tr' n'] st show ?case by simp
qed

lemma copyLoop_counted:
  "length (failedFiles (fst (copyLoop h s i tf files (tr, n)))) + n =
     length (failedFiles tr) + snd (copyLoop h s i tf files (tr, n))"
proof (induction files arbitrary: tr n)
  case Nil
  show ?case by simp
next
  case (Cons f fs)
  obtain tr' n' where st: "copyFile h s i tf f (tr, n) = (tr', n')"
    by (cases "copyFile h s i tf f (tr, n)")
  from copyFile_counted [of h s i tf f tr n] st
  have "length (failedFiles tr') + n = length (failedFiles tr) + n'"
    by simp
  with Cons.IH [of tr' n'] st show ?case by simp
qed

lemma copyLoop_quiet:
  "taskFailed (fst (copyLoop h s i tf files (tr, n))) = taskFailed tr
   \<and> list_ex isWarning (fst (copyLoop h s i tf files (tr, n))) = list_ex isWarning tr
   \<and> count_list (fst (copyLoop h s i tf files (tr, n))) CloseConnection =
       count_list tr CloseConnection"
proof (induction files arbitrary: tr n)
  case Nil
  show ?case by simp
next
  case (Cons f fs)
  obtain tr' n' where st: "copyFile h s i tf f (tr, n) = (tr', n')"
    by (cases "copyFile h s i tf f (tr, n)")
  then have step: "copyLoop h s i tf (f # fs) (tr, n) = copyLoop h s i tf fs (tr', n')"
    by simp
  from copyFile_quiet [of h s i tf f tr n]
  have q: "taskFailed tr' = taskFailed tr" "list_ex isWarning tr' = list_ex isWarning tr"
    "count_list tr' CloseConnection = count_list tr CloseConnection"
    by (simp_all add: st)
  show ?case unfolding step by (simp only: Cons.IH q)
qed

text \<open>The test on the array returned by the selection always succeeds.\<close>

lemma selectPhase_eq:
  "selectPhase h s i tf tr =
     (case getFilesToCopy h (sourceFolder i) (contents i) of
        Inl err \<Rightarrow> \<lparr>events = tr, sshHelper = True, thrown = Some (External err), failures = 0\<rparr>
      | Inr filesToCopy \<Rightarrow> copyPhase h s i tf filesToCopy tr)"
  by (simp add: selectPhase_def split: sum.splits)

lemma copyPhase_fields:
  "sshHelper (copyPhase h s i tf fs tr)"
  "thrown (copyPhase h s i tf fs tr) = None"
  by (simp_all add: copyPhase_def Let_def split: prod.splits)

lemma copyPhase_events:
  assumes "failedFiles tr = []" and "\<not> taskFailed tr"
  shows "failures (copyPhase h s i tf fs tr) = length (failedFiles (events (copyPhase h s i tf fs tr)))"
    and "taskFailed (events (copyPhase h s i tf fs tr)) \<longleftrightarrow> failures (copyPhase h s i tf fs tr) \<noteq> 0"
    and "list_ex isWarning (events (copyPhase h s i tf fs tr)) = list_ex isWarning tr"
    and "count_list (events (copyPhase h s i tf fs tr)) CloseConnection = count_list tr CloseConnection"
    and "startedFiles (events (copyPhase h s i tf fs tr)) =
           startedFiles tr @ map (\<lambda>f. (f, targetPath h (flattenFolders i) (sourceFolder i) tf f)) fs"
proof -
  let ?tr0 = "tr @ [ConsoleLog (CopyingFiles (length fs))]"
  obtain tr1 n where st: "copyLoop h s i tf fs (?tr0, 0) = (tr1, n)"
    by (cases "copyLoop h s i tf fs (?tr0, 0)")
  from copyLoop_counted [of h s i tf fs ?tr0 0] assms(1)
  have c: "length (failedFiles tr1) = n"
    by (simp add: st failedFiles_append)
  from copyLoop_quiet [of h s i tf fs ?tr0 0]
  have q: "taskFailed tr1 = taskFailed tr" "list_ex isWarning tr1 = list_ex isWarning tr"
    "count_list tr1 CloseConnection = count_list tr CloseConnection"
    by (simp_all add: st taskFailed_def)
  from copyLoop_started [of h s i tf fs ?tr0 0]
  have t: "startedFiles tr1 =
           startedFiles tr @ map (\<lambda>f. (f, targetPath h (flattenFolders i) (sourceFolder i) tf f)) fs"
    by (simp add: st startedFiles_append)
  show "failures (copyPhase h s i tf fs tr) = length (failedFiles (events (copyPhase h s i tf fs tr)))"
    by (simp add: copyPhase_def st Let_def failedFiles_append c)
  show "taskFailed (events (copyPhase h s i tf fs tr)) \<longleftrightarrow> failures (copyPhase h s i tf fs tr) \<noteq> 0"
    using assms(2) q(1) by (simp add: copyPhase_def st Let_def taskFailed_def)
  show "list_ex isWarning (events (copyPhase h s i tf fs tr)) = list_ex isWarning tr"
    using q(2) by (simp add: copyPhase_def st Let_def)
  show "count_list (events (copyPhase h s i tf fs tr)) CloseConnection = count_list tr CloseConnection"
    using q(3) by (simp add: copyPhase_def st Let_def)
  show "startedFiles (events (copyPhase h s i tf fs tr)) =
           startedFiles tr @ map (\<lambda>f. (f, targetPath h (flattenFolders i) (sourceFolder i) tf f)) fs"
    using t by (simp add: copyPhase_def st Let_def startedFiles_append)
qed


lemma not_taskFailed_notin: "\<not> taskFailed tr \<Longrightarrow> SetResultFailed m \<notin> set tr"
  by (auto simp: taskFailed_def list_ex_iff)

lemma copyPhase_no_NothingToCopy:
  assumes "failedFiles tr = []" and "\<not> taskFailed tr"
  shows "SetResultFailed NothingToCopy \<notin> set (events (copyPhase h s i tf fs tr))"
proof -
  let ?tr0 = "tr @ [ConsoleLog (CopyingFiles (length fs))]"
  obtain tr1 n where st: "copyLoop h s i tf fs (?tr0, 0) = (tr1, n)"
    by (cases "copyLoop h s i tf fs (?tr0, 0)")
  from copyLoop_quiet [of h s i tf fs ?tr0 0] assms(2)
  have "\<not> taskFailed tr1"
    by (simp add: st taskFailed_def)
  then have "SetResultFailed NothingToCopy \<notin> set tr1"
    by (rule not_taskFailed_notin)
  then show ?thesis
    by (simp add: copyPhase_def st Let_def)
qed

subsection \<open>The phases of the run\<close>

lemma selectPhase_settled:
  assumes "failedFiles tr = []" and "\<not> taskFailed tr" and "\<not> list_ex isWarning tr"
    and "count_list tr CloseConnection = 0"
  shows "settled (selectPhase h s i tf tr) \<and> sshHelper (selectPhase h s i tf tr)"
proof (cases "getFilesToCopy h (sourceFolder i) (contents i)")
  case (Inl err)
  with assms show ?thesis
    by (simp add: selectPhase_eq settled_def not_taskFailed_notin)
next
  case (Inr fs)
  then have "selectPhase h s i tf tr = copyPhase h s i tf fs tr"
    by (simp add: selectPhase_eq)
  with assms copyPhase_events [OF assms(1,2), of h s i tf fs]
    copyPhase_no_NothingToCopy [OF assms(1,2), of h s i tf fs]
    copyPhase_fields [of h s i tf fs tr]
  show ?thesis
    by (simp add: settled_def)
qed

lemma cleanPhase_settled:
  "settled (cleanPhase h s i tf [SetupConnection]) \<and> sshHelper (cleanPhase h s i tf [SetupConnection])"
proof (cases "cleanTargetFolder i")
  case False
  with selectPhase_settled [of "[SetupConnection]" h s i tf] show ?thesis
    by (simp add: cleanPhase_def taskFailed_def)
next
  case True
  let ?cmd = "getCleanTargetFolderCmd (isWindowsOnTarget i) tf"
  let ?tr = "[SetupConnection, ConsoleLog (CleanTargetFolder tf), RunCommandOnRemoteMachine ?cmd]"
  show ?thesis
  proof (cases "runCommandOnRemoteMachine s ?cmd")
    case None
    with True selectPhase_settled [of ?tr h s i tf] show ?thesis
      by (simp add: cleanPhase_def taskFailed_def)
  next
    case (Some err)
    with True show ?thesis
      by (simp add: cleanPhase_def settled_def taskFailed_def)
  qed
qed

lemma run_try_settled: "settled (run_try h s inp)"
  using cleanPhase_settled
  by (auto simp: run_try_def settled_def taskFailed_def split: sum.splits option.splits)

lemma run_try_sshHelper: "sshHelper (run_try h s inp) = helperCreated h inp"
  using cleanPhase_settled
  by (auto simp: run_try_def helperCreated_def split: sum.splits option.splits)


lemma run_reaches_selection:
  assumes "tl_stats h (sourceFolder i) = Inr True"
    and "setupConnection s = None"
    and "cleanTargetFolder i \<longrightarrow>
           runCommandOnRemoteMachine s
             (getCleanTargetFolderCmd (isWindowsOnTarget i)
                (normalizeTargetFolder (targetFolderInput i))) = None"
    and "getFilesToCopy h (sourceFolder i) (contents i) = Inr fs"
  shows "run_try h s (Inr i) =
           copyPhase h s i (normalizeTargetFolder (targetFolderInput i)) fs
             ([SetupConnection] @
              (if cleanTargetFolder i
               then [ConsoleLog (CleanTargetFolder (normalizeTargetFolder (targetFolderInput i))),
                     RunCommandOnRemoteMachine
                       (getCleanTargetFolderCmd (isWindowsOnTarget i)
                          (normalizeTargetFolder (targetFolderInput i)))]
               else []))"
  using assms by (simp add: run_try_def cleanPhase_def selectPhase_eq Let_def)

subsection \<open>Existence checks and uploads\<close>










subsection \<open>The example remote and inputs\<close>

lemma example_targetFolder: "normalizeTargetFolder (targetFolderInput exampleInputs) = ''./''"
  by (simp add: normalizeTargetFolder_def exampleInputs_def)

lemma exampleSsh_fields:
  "setupConnection exampleSsh = None"
  "runCommandOnRemoteMachine exampleSsh cmd = Some ''exit code 1''"
  "checkRemotePathExists exampleSsh tr p = Inr (p = ''./a.txt'')"
  "uploadFile exampleSsh tr f t = (if f = ''/src/.hidden'' then Some ''permission denied'' else None)"
  by (simp_all add: exampleSsh_def)

lemma exampleInputs_fields:
  "contents exampleInputs = [''a.txt'', '' .hidden'', ''sub/b.txt'', ''a.txt'']"
  "sourceFolder exampleInputs = ''/src''"
  "targetFolderInput exampleInputs = None"
  "cleanTargetFolder exampleInputs = False"
  "overwrite exampleInputs = False"
  "failOnEmptySource exampleInputs = False"
  "flattenFolders exampleInputs = False"
  "isWindowsOnTarget exampleInputs = False"
  by (simp_all add: exampleInputs_def)


lemma example_empty_selection:
  "getFilesToCopy exampleHost ''/src'' [''none.txt''] = Inr []"
  by (simp add: getFilesToCopy_def classifyContents_def classifyPattern_def example_trim
      exampleHost_fields addIncludeAll_def minimatch_match_def exampleMatch_def
      hasOwnProperty_def setProperty_def)



subsection \<open>Empty selections\<close>

text \<open>
  Claim C5. A run whose selection is empty fails if and only if \<^verbatim>\<open>failOnEmptySource\<close>
  is set. The code does not do this: on the small source tree with a pattern that
  matches nothing and \<^verbatim>\<open>failOnEmptySource\<close> set, the selection is empty, the run goes
  through the copy branch with no file and the task result is never set to failed.
\<close>

theorem empty_selection_with_failOnEmptySource:
  "getFilesToCopy exampleHost ''/src'' [''none.txt''] = Inr []
   \<and> run exampleHost exampleSsh
        (Inr (exampleInputs\<lparr>contents := [''none.txt''], failOnEmptySource := True\<rparr>)) =
      [SetupConnection, ConsoleLog (CopyingFiles 0), ConsoleLog (CopyCompleted 0), CloseConnection]
   \<and> \<not> taskFailed (run exampleHost exampleSsh
        (Inr (exampleInputs\<lparr>contents := [''none.txt''], failOnEmptySource := True\<rparr>)))"
  by (simp add: run_def run_try_def cleanPhase_def selectPhase_eq copyPhase_def Let_def
      exampleHost_fields(7) exampleSsh_fields exampleInputs_fields example_empty_selection
      taskFailed_def)

text \<open>
  Claim C6. The selection is an array, and an array is truthy, so the test before the
  copy branch succeeds: no run issues a warning or fails with \<^verbatim>\<open>NothingToCopy\<close>, and
  a run that reaches the selection and selects nothing announces the copy of 0 files
  and its completion, closes the connection, and neither transfers anything nor fails.
\<close>

theorem empty_selection_branches_unreachable:
  "(getFilesToCopy h src raws = Inr fs \<longrightarrow> truthy (Array fs))
   \<and> \<not> list_ex isWarning (run h s inp)
   \<and> SetResultFailed NothingToCopy \<notin> set (run h s inp)
   \<and> (tl_stats h (sourceFolder i) = Inr True \<longrightarrow>
      setupConnection s = None \<longrightarrow>
      (cleanTargetFolder i \<longrightarrow>
         runCommandOnRemoteMachine s
           (getCleanTargetFolderCmd (isWindowsOnTarget i)
              (normalizeTargetFolder (targetFolderInput i))) = None) \<longrightarrow>
      getFilesToCopy h (sourceFolder i) (contents i) = Inr [] \<longrightarrow>
        run h s (Inr i) =
          [SetupConnection] @
          (if cleanTargetFolder i
           then [ConsoleLog (CleanTargetFolder (normalizeTargetFolder (targetFolderInput i))),
                 RunCommandOnRemoteMachine
                   (getCleanTargetFolderCmd (isWindowsOnTarget i)
                      (normalizeTargetFolder (targetFolderInput i)))]
           else []) @
          [ConsoleLog (CopyingFiles 0), ConsoleLog (CopyCompleted 0), CloseConnection]
        \<and> \<not> taskFailed (run h s (Inr i))
        \<and> \<not> list_ex isTransfer (run h s (Inr i)))"
proof -
  from run_try_settled [of h s inp]
  have w: "\<not> list_ex isWarning (run h s inp)"
    and n: "SetResultFailed NothingToCopy \<notin> set (run h s inp)"
    by (auto simp: run_def settled_def Let_def split: option.splits)
  have e: "run h s (Inr i) =
          [SetupConnection] @
          (if cleanTargetFolder i
           then [ConsoleLog (CleanTargetFolder (normalizeTargetFolder (targetFolderInput i))),
                 RunCommandOnRemoteMachine
                   (getCleanTargetFolderCmd (isWindowsOnTarget i)
                      (normalizeTargetFolder (targetFolderInput i)))]
           else []) @
          [ConsoleLog (CopyingFiles 0), ConsoleLog (CopyCompleted 0), CloseConnection]"
    if "tl_stats h (sourceFolder i) = Inr True" "setupConnection s = None"
      "cleanTargetFolder i \<longrightarrow>
         runCommandOnRemoteMachine s
           (getCleanTargetFolderCmd (isWindowsOnTarget i)
              (normalizeTargetFolder (targetFolderInput i))) = None"
      "getFilesToCopy h (sourceFolder i) (contents i) = Inr []"
    using run_reaches_selection [OF that] by (simp add: run_def copyPhase_def Let_def)
  have "\<not> taskFailed (run h s (Inr i)) \<and> \<not> list_ex isTransfer (run h s (Inr i))"
    if "tl_stats h (sourceFolder i) = Inr True" "setupConnection s = None"
      "cleanTargetFolder i \<longrightarrow>
         runCommandOnRemoteMachine s
           (getCleanTargetFolderCmd (isWindowsOnTarget i)
              (normalizeTargetFolder (targetFolderInput i))) = None"
      "getFilesToCopy h (sourceFolder i) (contents i) = Inr []"
    unfolding e [OF that] by (simp add: taskFailed_def)
  with w n e show ?thesis by simp
qed

theorem empty_selection_branches_unreachable_witness:
  "getFilesToCopy exampleHost ''/src'' [''none.txt''] = Inr []
   \<and> truthy (Array [])
   \<and> tl_stats exampleHost (sourceFolder (exampleInputs\<lparr>contents := [''none.txt'']\<rparr>)) = Inr True
   \<and> setupConnection exampleSsh = None
   \<and> \<not> cleanTargetFolder (exampleInputs\<lparr>contents := [''none.txt'']\<rparr>)
   \<and> run exampleHost exampleSsh (Inr (exampleInputs\<lparr>contents := [''none.txt'']\<rparr>)) =
      [SetupConnection, ConsoleLog (CopyingFiles 0), ConsoleLog (CopyCompleted 0), CloseConnection]
   \<and> \<not> list_ex isWarning (run exampleHost exampleSsh (Inr (exampleInputs\<lparr>contents := [''none.txt'']\<rparr>)))
   \<and> \<not> taskFailed (run exampleHost exampleSsh (Inr (exampleInputs\<lparr>contents := [''none.txt'']\<rparr>)))"
proof -
  let ?i = "exampleInputs\<lparr>contents := [''none.txt'']\<rparr>"
  have h1: "tl_stats exampleHost (sourceFolder ?i) = Inr True"
    by (simp add: exampleHost_fields exampleInputs_fields)
  have h2: "setupConnection exampleSsh = None"
    by (simp add: exampleSsh_fields)
  have h3: "\<not> cleanTargetFolder ?i"
    by (simp add: exampleInputs_fields)
  have h4: "getFilesToCopy exampleHost (sourceFolder ?i) (contents ?i) = Inr []"
    by (simp add: exampleInputs_fields example_empty_selection)
  from empty_selection_branches_unreachable
    [of exampleHost "''/src''" "[''none.txt'']" "[]" exampleSsh "Inr ?i" ?i]
    h1 h2 h3 h4 example_empty_selection
  show ?thesis by (simp add: taskFailed_def)
qed

subsection \<open>Failures of single files\<close>



subsection \<open>Target paths\<close>




subsection \<open>Cleaning the target folder\<close>

text \<open>
  When cleaning is asked for and the command throws, the run sets the task result to
  failed and closes the connection without checking or uploading a file.
\<close>

lemma cleanup_failure_is_fatal:
  assumes "tl_stats h (sourceFolder i) = Inr True"
    and "setupConnection s = None"
    and "cleanTargetFolder i"
    and "runCommandOnRemoteMachine s
           (getCleanTargetFolderCmd (isWindowsOnTarget i)
              (normalizeTargetFolder (targetFolderInput i))) = Some err"
  shows "run h s (Inr i) =
          [SetupConnection,
           ConsoleLog (CleanTargetFolder (normalizeTargetFolder (targetFolderInput i))),
           RunCommandOnRemoteMachine
             (getCleanTargetFolderCmd (isWindowsOnTarget i)
                (normalizeTargetFolder (targetFolderInput i))),
           SetResultFailed (CleanTargetFolderFailed (External err)),
           CloseConnection]"
    and "taskFailed (run h s (Inr i))"
    and "\<not> list_ex isTransfer (run h s (Inr i))"
  using assms
  by (simp_all add: run_def run_try_def cleanPhase_def Let_def taskFailed_def)

text \<open>
  Claim C9. For every target folder the cleanup command should be one shell call that
  removes every entry under the folder. The code does not build such a command for
  every folder: the folder is put between single quotes as it is, so for the folder
  \<^verbatim>\<open>it's\<close> the script handed to \<^verbatim>\<open>bash -c\<close> holds three single quotes, and the quoted
  word ends after \<^verbatim>\<open>it\<close>.
\<close>

theorem cleanup_command_with_quote:
  "getCleanTargetFolderCmd False (''it'' @ [squote] @ ''s'') =
     ''bash -c '' @ [dquote] @ ''rm -rf '' @ [squote] @ ''it'' @ [squote] @ ''s'' @ [squote] @
     ''/*'' @ [dquote]
   \<and> count_list (getCleanTargetFolderCmd False (''it'' @ [squote] @ ''s'')) squote = 3
   \<and> takeWhile (\<lambda>c. c \<noteq> squote)
        (drop (length (''bash -c '' @ [dquote] @ ''rm -rf '' @ [squote]))
           (getCleanTargetFolderCmd False (''it'' @ [squote] @ ''s''))) = ''it''"
  by (simp add: getCleanTargetFolderCmd_def squote_def dquote_def)

subsection \<open>Closing the connection\<close>

text \<open>
  Claim C10, as the code has it. The connection is closed exactly once, as the last
  action of the run, when the run got as far as creating the SSH helper (the inputs
  were read and the source folder is a directory), whatever happened afterwards; it is
  not closed at all when the run failed before that.
\<close>

theorem disconnect_once_after_helper:
  "count_list (run h s inp) CloseConnection = (if helperCreated h inp then 1 else 0)
   \<and> (helperCreated h inp \<longrightarrow> last (run h s inp) = CloseConnection)"
  using run_try_settled [of h s inp] run_try_sshHelper [of h s inp]
  by (simp add: run_def settled_def Let_def split: option.splits)

theorem disconnect_once_after_helper_witness:
  "helperCreated exampleHost (Inr exampleInputs)
   \<and> count_list (run exampleHost exampleSsh (Inr exampleInputs)) CloseConnection = 1
   \<and> last (run exampleHost exampleSsh (Inr exampleInputs)) = CloseConnection
   \<and> \<not> helperCreated exampleHost (Inr (exampleInputs\<lparr>sourceFolder := ''/src/a.txt''\<rparr>))
   \<and> count_list (run exampleHost exampleSsh (Inr (exampleInputs\<lparr>sourceFolder := ''/src/a.txt''\<rparr>)))
        CloseConnection = 0"
proof -
  have h1: "helperCreated exampleHost (Inr exampleInputs)"
    by (simp add: helperCreated_def exampleHost_fields exampleInputs_fields)
  have h2: "\<not> helperCreated exampleHost (Inr (exampleInputs\<lparr>sourceFolder := ''/src/a.txt''\<rparr>))"
    by (simp add: helperCreated_def exampleHost_fields)
  from disconnect_once_after_helper [of exampleHost exampleSsh "Inr exampleInputs"]
    disconnect_once_after_helper [of exampleHost exampleSsh
      "Inr (exampleInputs\<lparr>sourceFolder := ''/src/a.txt''\<rparr>)"] h1 h2
  show ?thesis by simp
qed

text \<open>A run whose source folder is a file never creates the helper and closes nothing.\<close>

theorem no_disconnect_without_helper:
  "count_list (run exampleHost exampleSsh (Inr (exampleInputs\<lparr>sourceFolder := ''/src/a.txt''\<rparr>)))
     CloseConnection \<noteq> 1"
  by (simp add: run_def run_try_def exampleHost_fields)

end
